theory Spec2Isabelle
  imports Complex_Main
begin

section \<open>The post-tensioned slab optimisation script\<close>

text \<open>
  The source is one straight-line Python script, \<^verbatim>\<open>pt_slab_optimization_commented.py\<close>.
  Its module-level constants become the fields of the record \<open>params\<close>; the value
  \<open>script\<close> holds the constants as the file sets them. Every quantity the script derives
  is a function of that record, named as in the source.

  Python and numpy floats are modelled as real numbers: rounding error, infinities and
  NaN are outside the model. Where the script divides Python floats, a zero divisor
  raises; those raises are branches of \<open>grid\<close> and \<open>run\<close>. The linear-program solver
  (cvxpy with ECOS) is not code of the script: it is a parameter, a function from the
  formulated problem to a status string and a value.
\<close>

subsection \<open>Parameters (lines 10--67 and 81)\<close>

record params =
  Lx :: real
  Ly :: real
  t_slab :: real
  gamma_concrete :: real
  q_live :: real
  tendon_spacing :: real
  cord_area :: real
  n_cord_max :: int
  sigma_u :: real
  prestress_ratio :: real
  cover :: real
  ecc_factor :: real
  Npc :: int

definition script :: params where
  "script = \<lparr> Lx = 8, Ly = 12, t_slab = 4 / 10, gamma_concrete = 25, q_live = 5,
              tendon_spacing = 1, cord_area = 150, n_cord_max = 10, sigma_u = 1860,
              prestress_ratio = 7 / 10, cover = 5 / 100, ecc_factor = 1, Npc = 10000 \<rparr>"

definition q_dead :: "params \<Rightarrow> real" where
  "q_dead p = gamma_concrete p * t_slab p"

definition q_total :: "params \<Rightarrow> real" where
  "q_total p = q_dead p + q_live p"

text \<open>Lines 22--34: midspan moment and its conversion to a stress in MPa.\<close>

definition sigma_max :: "params \<Rightarrow> real" where
  "sigma_max p =
     (let L = Ly p; w = q_total p;
          M = w * L\<^sup>2 / 8;
          b = 1;
          I = (b * t_slab p ^ 3) / 12;
          y = t_slab p / 2;
          M_Nmm = M * 1000000;
          I_mm4 = I * 1000000000000;
          y_mm = y * 1000
      in (M_Nmm * y_mm) / I_mm4)"

definition Ptendon :: "params \<Rightarrow> real" where
  "Ptendon p = cord_area p * sigma_u p * prestress_ratio p / 1000"

definition area_influence :: "params \<Rightarrow> real" where
  "area_influence p = t_slab p * 1"

definition stress_per_tendon :: "params \<Rightarrow> real" where
  "stress_per_tendon p = (Ptendon p / area_influence p) / 1000"

definition e_max :: "params \<Rightarrow> real" where
  "e_max p = t_slab p / 2 - cover p"

definition e_design :: "params \<Rightarrow> real" where
  "e_design p = ecc_factor p * e_max p"

definition aspect_ratio :: "params \<Rightarrow> real" where
  "aspect_ratio p = Lx p / Ly p"

subsection \<open>numpy's range constructors\<close>

text \<open>
  \<^verbatim>\<open>np.arange(start, stop, step)\<close> has \<open>ceil((stop - start) / step)\<close> elements (none when
  that is not positive), the \<open>i\<close>-th being \<open>start + i * step\<close>. numpy raises on a zero
  step; \<open>run\<close> below has that branch.
\<close>

definition np_arange :: "real \<Rightarrow> real \<Rightarrow> real \<Rightarrow> real list" where
  "np_arange start stop step =
     map (\<lambda>i. start + real i * step) [0..<nat \<lceil>(stop - start) / step\<rceil>]"

text \<open>
  \<^verbatim>\<open>np.linspace(a, b, N)\<close>: \<open>N\<close> evenly spaced samples from \<open>a\<close> to \<open>b\<close> inclusive; the
  single sample of \<open>N = 1\<close> is \<open>a\<close>. numpy raises on a negative \<open>N\<close>; \<open>run\<close> has that branch.
\<close>

definition np_linspace :: "real \<Rightarrow> real \<Rightarrow> int \<Rightarrow> real list" where
  "np_linspace a b N =
     (if N = 1 then [a]
      else map (\<lambda>i. a + real i * ((b - a) / real_of_int (N - 1))) [0..<nat N])"

definition tendon_x_positions :: "params \<Rightarrow> real list" where
  "tendon_x_positions p = np_arange (1 / 2) (Lx p - 1 / 2 + 1 / 1000000) (tendon_spacing p)"

subsection \<open>Eccentricity profile (lines 72--73)\<close>

definition tendon_profile :: "real \<Rightarrow> real \<Rightarrow> real \<Rightarrow> real" where
  "tendon_profile y Ly' e0 = 4 * e0 * (y / Ly') * (1 - y / Ly')"

subsection \<open>Control point generation (lines 81--98)\<close>

datatype failure =
    ZeroDivisionError
  | MathDomainError
  | NegativeSamplesError
  | OptimizationAborted
  | OptimizationFailed string

text \<open>
  \<^verbatim>\<open>int(x)\<close> on a float truncates toward zero. \<^verbatim>\<open>math.sqrt\<close> raises \<^verbatim>\<open>ValueError\<close>
  (math domain error) on a negative argument, and the float division
  \<^verbatim>\<open>Npc / aspect_ratio\<close> raises \<^verbatim>\<open>ZeroDivisionError\<close> on a zero ratio. \<open>Ny\<close> is odd once
  forced, so the second division cannot fail.
\<close>

definition py_int :: "real \<Rightarrow> int" where
  "py_int x = (if 0 \<le> x then \<lfloor>x\<rfloor> else \<lceil>x\<rceil>)"

definition force_odd :: "int \<Rightarrow> int" where
  "force_odd k = (if k mod 2 = 0 then k + 1 else k)"

definition grid :: "int \<Rightarrow> real \<Rightarrow> failure + (int \<times> int)" where
  "grid P r =
     (if r = 0 then Inl ZeroDivisionError
      else if real_of_int P / r < 0 then Inl MathDomainError
      else
        let Ny = force_odd (py_int (sqrt (real_of_int P / r)));
            Nx = force_odd (py_int (real_of_int P / real_of_int Ny))
        in Inr (Nx, Ny))"

definition x_control :: "params \<Rightarrow> int \<Rightarrow> real list" where
  "x_control p Nx = np_linspace (1 / 2) (Lx p - 1 / 2) Nx"

definition y_control :: "params \<Rightarrow> int \<Rightarrow> real list" where
  "y_control p Ny = np_linspace (1 / 2) (Ly p - 1 / 2) Ny"

definition control_points :: "params \<Rightarrow> int \<Rightarrow> int \<Rightarrow> (real \<times> real) list" where
  "control_points p Nx Ny =
     concat (map (\<lambda>x. map (\<lambda>y. (x, y)) (y_control p Ny)) (x_control p Nx))"

subsection \<open>Influence matrix (lines 107--117)\<close>

text \<open>
  The function reads the globals \<open>Ly\<close>, \<open>e_design\<close> and \<open>t_slab\<close>; here they come from the
  record. \<open>sigma\<close> is the keyword argument, which the script leaves at its default 0.75.
\<close>

definition tendon_influence_with_eccentricity ::
    "params \<Rightarrow> real \<Rightarrow> real \<Rightarrow> real \<Rightarrow> real \<Rightarrow> real" where
  "tendon_influence_with_eccentricity p xc x_cp y_cp sigma =
     (let dx = \<bar>x_cp - xc\<bar>;
          infl_base = exp (- (dx\<^sup>2) / (2 * sigma\<^sup>2));
          ecc = tendon_profile y_cp (Ly p) (e_design p)
      in infl_base * (1 + ecc / (t_slab p / 2)))"

definition influence_row :: "params \<Rightarrow> real \<times> real \<Rightarrow> real list" where
  "influence_row p cp =
     map (\<lambda>x_t. tendon_influence_with_eccentricity p x_t (fst cp) (snd cp) (3 / 4))
       (tendon_x_positions p)"

definition influence_matrix :: "params \<Rightarrow> (real \<times> real) list \<Rightarrow> real list list" where
  "influence_matrix p cps = map (influence_row p) cps"

subsection \<open>Target stresses (lines 125--127)\<close>

definition sigma_target :: "params \<Rightarrow> real \<times> real \<Rightarrow> real" where
  "sigma_target p cp =
     (let yc = Ly p / 2; b = Ly p / 2
      in sigma_max p * (1 - ((snd cp - yc)\<^sup>2 / b\<^sup>2)))"

definition load_vector :: "params \<Rightarrow> (real \<times> real) list \<Rightarrow> real list" where
  "load_vector p cps = map (sigma_target p) cps"

subsection \<open>Induced stress and violations\<close>

text \<open>
  \<^verbatim>\<open>A @ (x * stress_per_tendon)\<close>: the strand vector is scaled by the per-strand stress and
  multiplied by the matrix, one dot product per row. numpy requires every row to be as
  long as the vector; the rows built above are (\<open>length_influence_row\<close>), and the
  theorems below state the shape where they need it.
\<close>

definition dot :: "real list \<Rightarrow> real list \<Rightarrow> real" where
  "dot row v = sum_list (map2 (*) row v)"

definition matvec :: "real list list \<Rightarrow> real list \<Rightarrow> real list" where
  "matvec A v = map (\<lambda>row. dot row v) A"

definition induced :: "real list list \<Rightarrow> real list \<Rightarrow> real \<Rightarrow> real list" where
  "induced A x s = matvec A (map (\<lambda>k. k * s) x)"

text \<open>\<^verbatim>\<open>violations = induced_stress < load_vector; n_violations = np.sum(violations)\<close>.\<close>

definition violations :: "real list \<Rightarrow> real list \<Rightarrow> bool list" where
  "violations ind load = map2 (\<lambda>i t. i < t) ind load"

definition n_violations :: "real list \<Rightarrow> real list \<Rightarrow> nat" where
  "n_violations ind load = length (filter (\<lambda>v. v) (violations ind load))"

subsection \<open>The linear program and the pipeline (lines 134--183)\<close>

record lp_problem =
  lp_A :: "real list list"
  lp_s :: real
  lp_load :: "real list"
  lp_n_max :: int
  lp_dim :: nat

text \<open>
  The constraints of lines 158--162 for a vector of \<open>lp_dim\<close> continuous strand counts.
\<close>

definition lp_feasible :: "lp_problem \<Rightarrow> real list \<Rightarrow> bool" where
  "lp_feasible lp n \<longleftrightarrow>
     length n = lp_dim lp \<and>
     list_all2 (\<lambda>i t. i \<ge> t) (induced (lp_A lp) n (lp_s lp)) (lp_load lp) \<and>
     list_all (\<lambda>x. x \<ge> 0) n \<and>
     list_all (\<lambda>x. x \<le> real_of_int (lp_n_max lp)) n"

text \<open>The objective of line 157, and the value of the program: the infimum of the
  objective over the feasible region.\<close>

definition lp_objective :: "real list \<Rightarrow> real" where
  "lp_objective n = sum_list n"

definition lp_value :: "lp_problem \<Rightarrow> real" where
  "lp_value lp = Inf {lp_objective n | n. lp_feasible lp n}"

record solver_result =
  solver_status :: string
  n_value :: "real list"

text \<open>
  The messages are those the gates print from line 141 on, with the counts they show;
  the informational prints before the precheck are left out. The outputs are the three
  arrays the rest of the script reads. Lines 186--252 (mass comparison and plots) only
  report on them and are not modelled.
\<close>

datatype message =
    PrecheckHeader
  | PrecheckSatisfied
  | PrecheckNotMet nat
  | Solving
  | Done
  | RoundingWarning nat
  | RoundingSatisfied

record run_output =
  x_opt :: "int list"
  induced_stress :: "real list"
  final_stress :: "real list"

definition x_all_active :: "nat \<Rightarrow> int \<Rightarrow> real list" where
  "x_all_active T n_max = replicate T (real_of_int n_max)"

definition induced_stress_full :: "real list list \<Rightarrow> nat \<Rightarrow> real \<Rightarrow> int \<Rightarrow> real list" where
  "induced_stress_full A T s n_max = induced A (x_all_active T n_max) s"

text \<open>Lines 172--183, reached with the solver's value: ceiling, recomputed stresses and
  the verification message.\<close>

definition round_up :: "real list \<Rightarrow> int list" where
  "round_up n = map ceiling n"

definition round_and_verify ::
    "real list list \<Rightarrow> real \<Rightarrow> real list \<Rightarrow> real list \<Rightarrow> message \<times> run_output" where
  "round_and_verify A s load n =
     (let xo = round_up n;
          ind = induced A (map real_of_int xo) s;
          fin = map2 (-) load ind;
          nv = n_violations ind load
      in (if nv > 0 then RoundingWarning nv else RoundingSatisfied,
          \<lparr> x_opt = xo, induced_stress = ind, final_stress = fin \<rparr>))"

text \<open>
  Lines 156--183: the problem is formulated and handed to the solver; any status other
  than \<^verbatim>\<open>cp.OPTIMAL\<close> (the string \<^verbatim>\<open>"optimal"\<close>) raises \<^verbatim>\<open>ValueError\<close> with the status
  appended to its message. The result is the list of messages printed, and either the
  exception raised (\<open>Inl\<close>) or the outputs the rest of the script uses. \<open>T\<close> is
  \<^verbatim>\<open>len(tendon_x_positions)\<close>.
\<close>

definition formulate :: "real list list \<Rightarrow> nat \<Rightarrow> real \<Rightarrow> real list \<Rightarrow> int \<Rightarrow> lp_problem" where
  "formulate A T s load n_max =
     \<lparr> lp_A = A, lp_s = s, lp_load = load, lp_n_max = n_max, lp_dim = T \<rparr>"

definition optimize ::
    "(lp_problem \<Rightarrow> solver_result) \<Rightarrow> real list list \<Rightarrow> nat \<Rightarrow> real \<Rightarrow> real list \<Rightarrow> int
      \<Rightarrow> message list \<times> (failure + run_output)" where
  "optimize solve A T s load n_max =
     (let problem = formulate A T s load n_max;
          r = solve problem
      in if solver_status r \<noteq> ''optimal''
         then ([Solving, Done], Inl (OptimizationFailed (solver_status r)))
         else
           let (msg, out) = round_and_verify A s load (n_value r)
           in ([Solving, Done, msg], Inr out))"

text \<open>
  Lines 134--148 and on: the precheck with every tendon at \<open>n_max\<close> strands raises
  \<^verbatim>\<open>RuntimeError\<close> when a control point is violated, and lets the optimizer run otherwise.
\<close>

definition pipeline ::
    "(lp_problem \<Rightarrow> solver_result) \<Rightarrow> real list list \<Rightarrow> nat \<Rightarrow> real \<Rightarrow> real list \<Rightarrow> int
      \<Rightarrow> message list \<times> (failure + run_output)" where
  "pipeline solve A T s load n_max =
     (let nv = n_violations (induced_stress_full A T s n_max) load in
      if nv = 0
      then
        let (msgs, res) = optimize solve A T s load n_max
        in (PrecheckHeader # PrecheckSatisfied # msgs, res)
      else ([PrecheckHeader, PrecheckNotMet nv], Inl OptimizationAborted))"

text \<open>
  The whole script. Before the precheck it can only stop on a float division by zero
  (line 34 for a zero thickness, line 82 for a zero \<open>Ly\<close>, line 84 inside \<open>grid\<close>), on a
  zero step of \<^verbatim>\<open>np.arange\<close> (line 44), on the square root of a negative number
  (line 84) or on a negative sample count of \<^verbatim>\<open>np.linspace\<close> (line 93).
\<close>

definition run ::
    "(lp_problem \<Rightarrow> solver_result) \<Rightarrow> params \<Rightarrow> message list \<times> (failure + run_output)" where
  "run solve p =
     (if t_slab p = 0 then ([], Inl ZeroDivisionError)
      else if tendon_spacing p = 0 then ([], Inl ZeroDivisionError)
      else if Ly p = 0 then ([], Inl ZeroDivisionError)
      else
        case grid (Npc p) (aspect_ratio p) of
          Inl e \<Rightarrow> ([], Inl e)
        | Inr (Nx, Ny) \<Rightarrow>
            if Nx < 0 then ([], Inl NegativeSamplesError)
            else
              let cps = control_points p Nx Ny
              in pipeline solve (influence_matrix p cps) (length (tendon_x_positions p))
                   (stress_per_tendon p) (load_vector p cps) (n_cord_max p))"

subsection \<open>Two solvers for concrete runs\<close>

text \<open>A solver that reports an infeasible program, and one that returns the vertex
  \<open>(1, 1/5)\<close> as optimal.\<close>

definition infeasible_solver :: "lp_problem \<Rightarrow> solver_result" where
  "infeasible_solver lp = \<lparr> solver_status = ''infeasible'', n_value = [] \<rparr>"

definition vertex_solver :: "lp_problem \<Rightarrow> solver_result" where
  "vertex_solver lp = \<lparr> solver_status = ''optimal'', n_value = [1, 1 / 5] \<rparr>"

subsection \<open>The script's own run\<close>

text \<open>
  With the constants of the file the grid is 81 by 123 (\<open>grid_script\<close> below); these
  are the control points, and the program the optimizer formulates for them.
\<close>

definition script_points :: "(real \<times> real) list" where
  "script_points = control_points script 81 123"

definition script_lp :: lp_problem where
  "script_lp =
     formulate (influence_matrix script script_points) (length (tendon_x_positions script))
       (stress_per_tendon script) (load_vector script script_points) (n_cord_max script)"

section \<open>Grid generator\<close>

lemma force_odd_odd: "odd (force_odd k)"
  by (auto simp: force_odd_def)

lemma force_odd_bounds: "k \<le> force_odd k \<and> force_odd k \<le> k + 1"
  by (simp add: force_odd_def)

lemma floor_sqrt_eq:
  assumes "0 \<le> k" "(real_of_int k)\<^sup>2 \<le> x" "x < (real_of_int k + 1)\<^sup>2"
  shows "\<lfloor>sqrt x\<rfloor> = k"
proof (rule floor_unique)
  show "real_of_int k \<le> sqrt x" using assms(2) by (rule real_le_rsqrt)
  show "sqrt x < real_of_int k + 1" using assms(1,3) by (intro real_less_lsqrt) auto
qed

lemma grid_2_1: "grid 2 1 = Inr (3, 1)"
proof -
  have "\<lfloor>sqrt 2\<rfloor> = (1::int)" by (rule floor_sqrt_eq) (simp_all add: power2_eq_square)
  then show ?thesis by (simp add: grid_def force_odd_def py_int_def Let_def)
qed

lemma grid_100_1024: "grid 100 (1 / 1024) = Inr (1, 321)"
proof -
  have "\<lfloor>sqrt 102400\<rfloor> = (320::int)"
    by (rule floor_sqrt_eq) (simp_all add: power2_eq_square)
  moreover have "\<lfloor>100 / 321 :: real\<rfloor> = 0"
    by (rule floor_unique) simp_all
  ultimately show ?thesis
    by (simp add: grid_def force_odd_def py_int_def Let_def)
qed

lemma grid_script: "grid 10000 (8 / 12) = Inr (81, 123)"
proof -
  have "\<lfloor>sqrt 15000\<rfloor> = (122::int)"
    by (rule floor_sqrt_eq) (simp_all add: power2_eq_square)
  moreover have "\<lfloor>10000 / 123 :: real\<rfloor> = 81"
    by (rule floor_unique) simp_all
  ultimately show ?thesis
    by (simp add: grid_def force_odd_def py_int_def Let_def)
qed

text \<open>
  Claim C7, as amended. For every positive target count \<open>P\<close> and positive aspect ratio
  \<open>r\<close> the grid generator returns without error, \<open>Nx\<close> and \<open>Ny\<close> are odd and positive,
  \<open>Ny\<close> is at most \<open>sqrt (P / r) + 1\<close>, and the product \<open>Nx * Ny\<close> differs from \<open>P\<close> by at
  most \<open>Ny\<close>. The deviation is small relative to \<open>P\<close> only where \<open>Ny\<close> is.
\<close>

theorem grid_odd_and_close:
  assumes "0 < P" "0 < r"
  shows "\<exists>Nx Ny. grid P r = Inr (Nx, Ny) \<and> odd Nx \<and> odd Ny \<and> 0 < Nx \<and> 0 < Ny
           \<and> real_of_int Ny \<le> sqrt (real_of_int P / r) + 1
           \<and> \<bar>Nx * Ny - P\<bar> \<le> Ny"
proof -
  define Ny where "Ny = force_odd (py_int (sqrt (real_of_int P / r)))"
  define Nx where "Nx = force_odd (py_int (real_of_int P / real_of_int Ny))"
  have q: "0 < real_of_int P / r" using assms by simp
  have g: "grid P r = Inr (Nx, Ny)"
    using assms q by (simp add: grid_def Let_def Nx_def Ny_def not_less less_imp_le)
  have s0: "py_int (sqrt (real_of_int P / r)) = \<lfloor>sqrt (real_of_int P / r)\<rfloor>"
    using q by (simp add: py_int_def)
  have f0: "0 \<le> \<lfloor>sqrt (real_of_int P / r)\<rfloor>" using q by simp
  have fb: "\<lfloor>sqrt (real_of_int P / r)\<rfloor> \<le> Ny \<and> Ny \<le> \<lfloor>sqrt (real_of_int P / r)\<rfloor> + 1"
    unfolding Ny_def s0 by (rule force_odd_bounds)
  from f0 fb have Ny0: "0 \<le> Ny" by linarith
  from fb have "Ny \<le> \<lfloor>sqrt (real_of_int P / r)\<rfloor> + 1" by simp
  then have "real_of_int Ny \<le> real_of_int \<lfloor>sqrt (real_of_int P / r)\<rfloor> + 1"
    by linarith
  then have Nyub: "real_of_int Ny \<le> sqrt (real_of_int P / r) + 1"
    by linarith
  have oNy: "odd Ny" by (simp add: Ny_def force_odd_odd)
  have oNx: "odd Nx" by (simp add: Nx_def force_odd_odd)
  from Ny0 oNy have Nypos: "0 < Ny" by (cases "Ny = 0") auto
  let ?q = "real_of_int P / real_of_int Ny"
  have qpos: "0 < ?q" using assms Nypos by simp
  have pi: "py_int ?q = \<lfloor>?q\<rfloor>" using qpos by (simp add: py_int_def)
  have fl: "\<lfloor>?q\<rfloor> = P div Ny" by (simp add: floor_divide_of_int_eq)
  have b: "P div Ny \<le> Nx \<and> Nx \<le> P div Ny + 1"
    using force_odd_bounds[of "py_int ?q"] by (simp add: Nx_def pi fl)
  have "0 \<le> P div Ny" using assms Nypos by (simp add: pos_imp_zdiv_nonneg_iff)
  with b oNx have Nxpos: "0 < Nx" by (cases "Nx = 0") auto
  have d1: "(P div Ny) * Ny \<le> P"
    using Nypos by (metis div_mult_mod_eq le_add_same_cancel1 pos_mod_sign)
  have d2: "P < (P div Ny + 1) * Ny"
    using Nypos
    by (metis add.commute distrib_right div_mult_mod_eq mult.commute mult_1
        add_strict_left_mono pos_mod_bound)
  have lo: "P - Ny < Nx * Ny"
  proof -
    have "(P div Ny) * Ny \<le> Nx * Ny" using b Nypos by (simp add: mult_right_mono)
    moreover have "P - Ny < (P div Ny) * Ny" using d2 by (simp add: algebra_simps)
    ultimately show ?thesis by linarith
  qed
  have hi: "Nx * Ny \<le> P + Ny"
  proof -
    have "Nx * Ny \<le> (P div Ny + 1) * Ny" using b Nypos by (simp add: mult_right_mono)
    also have "\<dots> = (P div Ny) * Ny + Ny" by (simp add: algebra_simps)
    also have "\<dots> \<le> P + Ny" using d1 by simp
    finally show ?thesis .
  qed
  from lo hi have "\<bar>Nx * Ny - P\<bar> \<le> Ny" by linarith
  with g oNx oNy Nxpos Nypos Nyub show ?thesis by blast
qed

theorem grid_odd_and_close_witness:
  "(0::int) < 10000 \<and> (0::real) < 8 / 12 \<and>
   grid 10000 (8 / 12) = Inr (81, 123) \<and> odd (81::int) \<and> odd (123::int) \<and>
   real_of_int 123 \<le> sqrt (real_of_int 10000 / (8 / 12)) + 1 \<and>
   \<bar>81 * 123 - 10000\<bar> \<le> (123::int)"
proof -
  have h1: "(0::int) < 10000" and h2: "(0::real) < 8 / 12" by simp_all
  from grid_odd_and_close [OF h1 h2] obtain Nx Ny where
    g: "grid 10000 (8 / 12) = Inr (Nx, Ny)" and o: "odd Nx" "odd Ny"
    and b: "real_of_int Ny \<le> sqrt (real_of_int 10000 / (8 / 12)) + 1"
    and c: "\<bar>Nx * Ny - 10000\<bar> \<le> Ny"
    by blast
  from g have e: "Nx = 81" "Ny = 123" unfolding grid_script by simp_all
  show ?thesis
    apply (intro conjI)
    using h1 h2 g o b c unfolding e by simp_all
qed

text \<open>
  Claim C7 as stated fails: no relative tolerance holds for all positive \<open>P\<close> and \<open>r\<close>.
  For \<open>P = 2\<close>, \<open>r = 1\<close> the grid is 3 by 1, half of \<open>P\<close> too many; for \<open>P = 100\<close>,
  \<open>r = 1/1024\<close> it is 1 by 321, more than three times \<open>P\<close>.
\<close>

theorem grid_tolerance_counterexample:
  "grid 2 1 = Inr (3, 1) \<and> real_of_int \<bar>3 * 1 - 2\<bar> / real_of_int 2 = 1 / 2 \<and>
   grid 100 (1 / 1024) = Inr (1, 321) \<and>
   real_of_int \<bar>1 * 321 - 100\<bar> / real_of_int 100 = 221 / 100"
  by (simp add: grid_2_1 grid_100_1024)

section \<open>Rounding, influence and the pipeline\<close>

lemma dot_mono:
  assumes "\<forall>a\<in>set row. 0 \<le> a" "list_all2 (\<le>) v w"
  shows "dot row v \<le> dot row w"
  using assms(2,1) unfolding dot_def
proof (induction v w arbitrary: row rule: list_all2_induct)
  case Nil
  then show ?case by simp
next
  case (Cons x xs y ys)
  show ?case
  proof (cases row)
    case Nil
    then show ?thesis by simp
  next
    case (Cons a r)
    with Cons.prems have a: "0 \<le> a" and r: "\<forall>a\<in>set r. 0 \<le> a" by simp_all
    have "a * x \<le> a * y" using a Cons.hyps by (simp add: mult_left_mono)
    moreover have "sum_list (map2 (*) r xs) \<le> sum_list (map2 (*) r ys)"
      using Cons.IH[OF r] .
    ultimately show ?thesis using Cons by simp
  qed
qed

lemma scaled_ceiling_mono:
  assumes "0 \<le> s"
  shows "list_all2 (\<le>) (map (\<lambda>k. k * s) n) (map (\<lambda>k. k * s) (map real_of_int (round_up n)))"
  using assms by (induction n) (simp_all add: round_up_def mult_right_mono)

lemma length_induced: "length (induced A x s) = length A"
  by (simp add: induced_def matvec_def)

lemma nth_induced: "i < length A \<Longrightarrow> induced A x s ! i = dot (A ! i) (map (\<lambda>k. k * s) x)"
  by (simp add: induced_def matvec_def)

lemma n_violations_zero_iff:
  assumes "length ind = length load"
  shows "n_violations ind load = 0 \<longleftrightarrow> list_all2 (\<lambda>i t. t \<le> i) ind load"
  using assms by (induction ind load rule: list_induct2)
    (auto simp: n_violations_def violations_def filter_map o_def)

lemma n_violations_pos_iff:
  assumes "length ind = length load"
  shows "n_violations ind load \<noteq> 0 \<longleftrightarrow> (\<exists>i<length load. ind ! i < load ! i)"
proof -
  have "n_violations ind load \<noteq> 0 \<longleftrightarrow> \<not> list_all2 (\<lambda>i t. t \<le> i) ind load"
    using n_violations_zero_iff[OF assms] by simp
  also have "\<dots> \<longleftrightarrow> (\<exists>i<length load. ind ! i < load ! i)"
    using assms by (auto simp: list_all2_conv_all_nth not_le)
  finally show ?thesis .
qed

text \<open>
  Claim C1. For a matrix \<open>A\<close> with non-negative entries and a non-negative per-strand
  stress \<open>s\<close>, the stress induced by the ceiling-rounded vector is at every control point
  at least the stress induced by the continuous vector \<open>n\<close>. So a constraint that \<open>n\<close>
  satisfies is satisfied after rounding, and if \<open>n\<close> satisfies all of them the
  verification of lines 177--179 counts no violation. The shape hypotheses are numpy's:
  every row as long as \<open>n\<close>, one target per row.
\<close>

theorem rounding_safety:
  assumes nonneg: "\<forall>row\<in>set A. \<forall>a\<in>set row. 0 \<le> a"
    and s: "0 \<le> s"
    and shape: "\<forall>row\<in>set A. length row = length n" "length A = length target"
  shows "(\<forall>i<length A. induced A n s ! i \<le> induced A (map real_of_int (round_up n)) s ! i) \<and>
         (\<forall>i<length A. target ! i \<le> induced A n s ! i
            \<longrightarrow> target ! i \<le> induced A (map real_of_int (round_up n)) s ! i) \<and>
         (list_all2 (\<lambda>i t. t \<le> i) (induced A n s) target
            \<longrightarrow> n_violations (induced A (map real_of_int (round_up n)) s) target = 0)"
proof -
  have 1: "\<forall>i<length A. induced A n s ! i \<le> induced A (map real_of_int (round_up n)) s ! i"
  proof (intro allI impI)
    fix i assume i: "i < length A"
    then have "\<forall>a\<in>set (A ! i). 0 \<le> a" using nonneg nth_mem by blast
    then have "dot (A ! i) (map (\<lambda>k. k * s) n)
                 \<le> dot (A ! i) (map (\<lambda>k. k * s) (map real_of_int (round_up n)))"
      using scaled_ceiling_mono[OF s] by (rule dot_mono)
    then show "induced A n s ! i \<le> induced A (map real_of_int (round_up n)) s ! i"
      using i by (simp add: nth_induced)
  qed
  then have 2: "\<forall>i<length A. target ! i \<le> induced A n s ! i
            \<longrightarrow> target ! i \<le> induced A (map real_of_int (round_up n)) s ! i"
    by (meson order_trans)
  have 3: "n_violations (induced A (map real_of_int (round_up n)) s) target = 0"
    if "list_all2 (\<lambda>i t. t \<le> i) (induced A n s) target"
  proof -
    from that have "\<forall>i<length A. target ! i \<le> induced A n s ! i"
      by (simp add: list_all2_conv_all_nth length_induced)
    with 2 have "list_all2 (\<lambda>i t. t \<le> i) (induced A (map real_of_int (round_up n)) s) target"
      using shape(2) by (simp add: list_all2_conv_all_nth length_induced)
    then show ?thesis
      using shape(2) by (simp add: n_violations_zero_iff length_induced)
  qed
  from 1 2 3 show ?thesis by blast
qed

theorem rounding_safety_witness:
  "list_all (list_all (\<lambda>a. 0 \<le> a)) [[1, 2], [0, 3::real]] \<and> (0::real) \<le> 1 / 2 \<and>
   list_all (\<lambda>row. length row = length [1 / 2, 3 / 2 :: real]) [[1, 2], [0, 3::real]] \<and>
   length [[1, 2], [0, 3::real]] = length [1, 2 :: real] \<and>
   list_all2 (\<lambda>i t. t \<le> i) (induced [[1, 2], [0, 3]] [1 / 2, 3 / 2] (1 / 2)) [1, 2] \<and>
   n_violations (induced [[1, 2], [0, 3]] (map real_of_int (round_up [1 / 2, 3 / 2])) (1 / 2)) [1, 2] = 0"
proof -
  have a: "\<forall>row\<in>set [[1, 2], [0, 3::real]]. \<forall>a\<in>set row. 0 \<le> a" by simp
  have b: "(0::real) \<le> 1 / 2" by simp
  have c: "\<forall>row\<in>set [[1, 2], [0, 3::real]]. length row = length [1 / 2, 3 / 2 :: real]" by simp
  have d: "length [[1, 2], [0, 3::real]] = length [1, 2 :: real]" by simp
  have e: "list_all2 (\<lambda>i t. t \<le> i) (induced [[1, 2], [0, 3]] [1 / 2, 3 / 2] (1 / 2)) [1, 2 :: real]"
    by (simp add: induced_def matvec_def dot_def)
  have f: "n_violations (induced [[1, 2], [0, 3]] (map real_of_int (round_up [1 / 2, 3 / 2])) (1 / 2))
             [1, 2] = 0"
    using rounding_safety [OF a b c d, THEN conjunct2, THEN conjunct2, THEN mp, OF e] .
  show ?thesis
    apply (intro conjI)
    using b d e f by simp_all
qed

text \<open>
  Claim C10. If every component of the continuous vector lies between 0 and the integer
  \<open>n_max\<close>, every component of the rounded vector \<open>x_opt\<close> lies between 0 and \<open>n_max\<close>, and
  the vector keeps its length.
\<close>

theorem ceiling_within_bounds:
  assumes "\<forall>x\<in>set n. 0 \<le> x \<and> x \<le> real_of_int n_max"
  shows "length (round_up n) = length n \<and> (\<forall>k\<in>set (round_up n). 0 \<le> k \<and> k \<le> n_max)"
  using assms by (auto simp: round_up_def ceiling_le_iff)

theorem ceiling_within_bounds_witness:
  "list_all (\<lambda>x. 0 \<le> x \<and> x \<le> real_of_int 10) [0, 3 / 10, 10, 97 / 10 :: real] \<and>
   round_up [0, 3 / 10, 10, 97 / 10] = [0, 1, 10, 10] \<and>
   list_all (\<lambda>k. 0 \<le> k \<and> k \<le> 10) (round_up [0, 3 / 10, 10, 97 / 10])"
proof -
  have a: "\<forall>x\<in>set [0, 3 / 10, 10, 97 / 10 :: real]. 0 \<le> x \<and> x \<le> real_of_int 10" by simp
  have b: "round_up [0, 3 / 10, 10, 97 / 10] = [0, 1, 10, 10]"
    by (simp add: round_up_def ceiling_eq_iff)
  have c: "list_all (\<lambda>k. 0 \<le> k \<and> k \<le> 10) (round_up [0, 3 / 10, 10, 97 / 10])"
    using ceiling_within_bounds [OF a, THEN conjunct2] by (simp only: list_all_iff)
  show ?thesis
    apply (intro conjI)
    using b c by simp_all
qed

subsection \<open>Influence\<close>

lemma tendon_profile_range:
  assumes "0 < L" "0 \<le> y" "y \<le> L" "0 \<le> e0"
  shows "0 \<le> tendon_profile y L e0"
proof -
  have "0 \<le> y / L" "0 \<le> 1 - y / L" using assms by simp_all
  then show ?thesis using assms(4) unfolding tendon_profile_def
    by (intro mult_nonneg_nonneg) simp_all
qed

text \<open>
  Claim C5. The influence function is the Gaussian kernel in \<open>dx = \<bar>x - xc\<bar>\<close> times
  \<open>1 + profile(y) / (t_slab / 2)\<close>, the profile is \<open>4 * e_design * (y / Ly) * (1 - y / Ly)\<close>,
  and for a positive \<open>Ly\<close> the profile is 0 at \<open>y = 0\<close> and \<open>y = Ly\<close> and \<open>e_design\<close> at
  \<open>y = Ly / 2\<close>.
\<close>

theorem influence_formula:
  assumes "0 < Ly p"
  shows "tendon_influence_with_eccentricity p xc x y sigma =
           exp (- (\<bar>x - xc\<bar>\<^sup>2) / (2 * sigma\<^sup>2)) *
             (1 + tendon_profile y (Ly p) (e_design p) / (t_slab p / 2)) \<and>
         tendon_profile y (Ly p) (e_design p) =
           4 * e_design p * (y / Ly p) * (1 - y / Ly p) \<and>
         tendon_profile 0 (Ly p) (e_design p) = 0 \<and>
         tendon_profile (Ly p) (Ly p) (e_design p) = 0 \<and>
         tendon_profile (Ly p / 2) (Ly p) (e_design p) = e_design p"
  using assms by (simp add: tendon_influence_with_eccentricity_def tendon_profile_def Let_def)

theorem influence_formula_witness:
  "0 < Ly script \<and>
   tendon_influence_with_eccentricity script (1 / 2) 2 6 (3 / 4) =
     exp (- (\<bar>2 - 1 / 2\<bar>\<^sup>2) / (2 * (3 / 4)\<^sup>2)) *
       (1 + tendon_profile 6 (Ly script) (e_design script) / (t_slab script / 2)) \<and>
   tendon_profile 6 (Ly script) (e_design script) =
     4 * e_design script * (6 / Ly script) * (1 - 6 / Ly script) \<and>
   tendon_profile 0 (Ly script) (e_design script) = 0 \<and>
   tendon_profile (Ly script) (Ly script) (e_design script) = 0 \<and>
   tendon_profile (Ly script / 2) (Ly script) (e_design script) = e_design script"
proof -
  have a: "0 < Ly script" by (simp add: script_def)
  from influence_formula [OF a, of "1 / 2" 2 6 "3 / 4"] a show ?thesis by blast
qed

lemma eccentricity_factor_nonneg:
  assumes "0 < t_slab p" "0 \<le> e_design p" "0 < Ly p" "0 \<le> y" "y \<le> Ly p"
  shows "1 \<le> 1 + tendon_profile y (Ly p) (e_design p) / (t_slab p / 2)"
proof -
  have "0 \<le> tendon_profile y (Ly p) (e_design p)"
    using assms by (intro tendon_profile_range) auto
  then show ?thesis using assms(1) by simp
qed

lemma tendon_influence_nonneg:
  assumes "0 < t_slab p" "0 \<le> e_design p" "0 < Ly p" "0 \<le> y" "y \<le> Ly p"
  shows "0 \<le> tendon_influence_with_eccentricity p xc x y sigma"
  using eccentricity_factor_nonneg [OF assms]
  by (simp add: tendon_influence_with_eccentricity_def Let_def)

lemma influence_matrix_nonneg:
  assumes "0 < t_slab p" "0 \<le> e_design p" "0 < Ly p"
    and "\<forall>cp\<in>set cps. 0 \<le> snd cp \<and> snd cp \<le> Ly p"
  shows "\<forall>row\<in>set (influence_matrix p cps). \<forall>a\<in>set row. 0 \<le> a"
  using assms by (auto simp: influence_matrix_def influence_row_def tendon_influence_nonneg)

lemma length_influence_row: "length (influence_row p cp) = length (tendon_x_positions p)"
  by (simp add: influence_row_def)

text \<open>
  Claim C6. With a positive thickness and span and a non-negative design eccentricity
  (the script's are 0.40, 12 and 0.15), every entry of the influence matrix over control
  points with \<open>y\<close> in \<open>[0, Ly]\<close> is non-negative, and for a fixed \<open>y\<close> in that range the
  influence does not increase when the lateral distance \<open>\<bar>x - xc\<bar>\<close> does.
\<close>

theorem influence_nonneg_and_decay:
  assumes "0 < t_slab p" "0 \<le> e_design p" "0 < Ly p"
  shows "(\<forall>cps. (\<forall>cp\<in>set cps. 0 \<le> snd cp \<and> snd cp \<le> Ly p) \<longrightarrow>
            (\<forall>row\<in>set (influence_matrix p cps). \<forall>a\<in>set row. 0 \<le> a)) \<and>
         (\<forall>xc x y sigma. 0 \<le> y \<and> y \<le> Ly p \<longrightarrow>
            0 \<le> tendon_influence_with_eccentricity p xc x y sigma) \<and>
         (\<forall>xc1 x1 xc2 x2 y sigma. 0 \<le> y \<and> y \<le> Ly p \<and> \<bar>x1 - xc1\<bar> \<le> \<bar>x2 - xc2\<bar> \<longrightarrow>
            tendon_influence_with_eccentricity p xc2 x2 y sigma
              \<le> tendon_influence_with_eccentricity p xc1 x1 y sigma)"
proof (intro conjI allI impI)
  fix cps :: "(real \<times> real) list"
  assume "\<forall>cp\<in>set cps. 0 \<le> snd cp \<and> snd cp \<le> Ly p"
  then show "\<forall>row\<in>set (influence_matrix p cps). \<forall>a\<in>set row. 0 \<le> a"
    using assms by (intro influence_matrix_nonneg)
next
  fix xc x y sigma :: real
  assume "0 \<le> y \<and> y \<le> Ly p"
  then show "0 \<le> tendon_influence_with_eccentricity p xc x y sigma"
    using assms by (intro tendon_influence_nonneg) auto
next
  fix xc1 x1 xc2 x2 y sigma :: real
  assume h: "0 \<le> y \<and> y \<le> Ly p \<and> \<bar>x1 - xc1\<bar> \<le> \<bar>x2 - xc2\<bar>"
  then have f: "0 \<le> 1 + tendon_profile y (Ly p) (e_design p) / (t_slab p / 2)"
    using eccentricity_factor_nonneg [OF assms, of y] by simp
  from h have "\<bar>x1 - xc1\<bar>\<^sup>2 \<le> \<bar>x2 - xc2\<bar>\<^sup>2" by (intro power_mono) auto
  then have "\<bar>x1 - xc1\<bar>\<^sup>2 / (2 * sigma\<^sup>2) \<le> \<bar>x2 - xc2\<bar>\<^sup>2 / (2 * sigma\<^sup>2)"
    by (intro divide_right_mono) auto
  then have "exp (- (\<bar>x2 - xc2\<bar>\<^sup>2) / (2 * sigma\<^sup>2)) \<le> exp (- (\<bar>x1 - xc1\<bar>\<^sup>2) / (2 * sigma\<^sup>2))"
    by simp
  then show "tendon_influence_with_eccentricity p xc2 x2 y sigma
              \<le> tendon_influence_with_eccentricity p xc1 x1 y sigma"
    using f by (simp add: tendon_influence_with_eccentricity_def Let_def mult_right_mono)
qed

lemma script_fields:
  "Lx script = 8" "Ly script = 12" "t_slab script = 4 / 10" "tendon_spacing script = 1"
  "n_cord_max script = 10" "Npc script = 10000"
  by (simp_all add: script_def)

lemma e_design_script: "e_design script = 3 / 20"
  by (simp add: e_design_def e_max_def script_def)

theorem influence_nonneg_and_decay_witness:
  "0 < t_slab script \<and> 0 \<le> e_design script \<and> 0 < Ly script \<and>
   list_all (\<lambda>cp. 0 \<le> snd cp \<and> snd cp \<le> Ly script) [(1 / 2, 6), (4, 1 / 2)] \<and>
   list_all (list_all (\<lambda>a. 0 \<le> a)) (influence_matrix script [(1 / 2, 6), (4, 1 / 2)]) \<and>
   (0::real) \<le> 6 \<and> 6 \<le> Ly script \<and> \<bar>1 - 1 / 2 :: real\<bar> \<le> \<bar>3 - 1 / 2\<bar> \<and>
   tendon_influence_with_eccentricity script (1 / 2) 3 6 (3 / 4)
     \<le> tendon_influence_with_eccentricity script (1 / 2) 1 6 (3 / 4)"
proof -
  have a: "0 < t_slab script" "0 \<le> e_design script" "0 < Ly script"
    by (simp_all add: script_fields e_design_script)
  have b: "\<forall>cp\<in>set [(1 / 2, 6), (4, 1 / 2)]. 0 \<le> snd cp \<and> snd cp \<le> Ly script"
    by (simp add: script_fields)
  have c: "(0::real) \<le> 6 \<and> 6 \<le> Ly script \<and> \<bar>1 - 1 / 2 :: real\<bar> \<le> \<bar>3 - 1 / 2\<bar>"
    by (simp add: script_fields)
  note th = influence_nonneg_and_decay [OF a]
  have "\<forall>row\<in>set (influence_matrix script [(1 / 2, 6), (4, 1 / 2)]). \<forall>a\<in>set row. 0 \<le> a"
    using th [THEN conjunct1, THEN spec [where x = "[(1 / 2, 6), (4, 1 / 2)]"], THEN mp, OF b] .
  then have m: "list_all (list_all (\<lambda>a. 0 \<le> a)) (influence_matrix script [(1 / 2, 6), (4, 1 / 2)])"
    unfolding list_all_iff .
  have d: "tendon_influence_with_eccentricity script (1 / 2) 3 6 (3 / 4)
     \<le> tendon_influence_with_eccentricity script (1 / 2) 1 6 (3 / 4)"
    using th [THEN conjunct2, THEN conjunct2, THEN spec [where x = "1 / 2"],
        THEN spec [where x = 1], THEN spec [where x = "1 / 2"], THEN spec [where x = 3],
        THEN spec [where x = 6], THEN spec [where x = "3 / 4"], THEN mp, OF c] .
  have b': "list_all (\<lambda>cp. 0 \<le> snd cp \<and> snd cp \<le> Ly script) [(1 / 2, 6), (4, 1 / 2)]"
    using b by (simp only: list_all_iff)
  show ?thesis
    apply (intro conjI)
    using a b' c m d by simp_all
qed

subsection \<open>Pipeline\<close>

lemma length_induced_stress_full: "length (induced_stress_full A T s n_max) = length A"
  by (simp add: induced_stress_full_def length_induced)

lemma optimize_not_optimal:
  assumes "solver_status (solve (formulate A T s load n_max))
             \<noteq> ''optimal''"
  shows "optimize solve A T s load n_max =
           ([Solving, Done],
            Inl (OptimizationFailed (solver_status
              (solve (formulate A T s load n_max)))))"
  using assms by (simp add: optimize_def Let_def)

lemma optimize_optimal:
  assumes "solver_status (solve (formulate A T s load n_max))
             = ''optimal''"
  shows "optimize solve A T s load n_max =
           ([Solving, Done,
             fst (round_and_verify A s load (n_value
               (solve (formulate A T s load n_max))))],
            Inr (snd (round_and_verify A s load (n_value
               (solve (formulate A T s load n_max))))))"
  using assms by (simp add: optimize_def Let_def split_beta)

lemma pipeline_violated:
  assumes "n_violations (induced_stress_full A T s n_max) load \<noteq> 0"
  shows "pipeline solve A T s load n_max =
           ([PrecheckHeader, PrecheckNotMet (n_violations (induced_stress_full A T s n_max) load)],
            Inl OptimizationAborted)"
  using assms by (simp add: pipeline_def Let_def)

lemma pipeline_passed:
  assumes "n_violations (induced_stress_full A T s n_max) load = 0"
  shows "pipeline solve A T s load n_max =
           (PrecheckHeader # PrecheckSatisfied # fst (optimize solve A T s load n_max),
            snd (optimize solve A T s load n_max))"
  using assms by (simp add: pipeline_def Let_def split_beta)

lemma Solving_in_optimize: "Solving \<in> set (fst (optimize solve A T s load n_max))"
  by (simp add: optimize_def Let_def split_beta)

lemma dot_replicate_sum:
  assumes "length row = T"
  shows "dot row (replicate T k) = (\<Sum>j<T. row ! j * k)"
proof -
  have "dot row (replicate T k) = sum_list (map (\<lambda>a. a * k) row)"
    using assms unfolding dot_def
    by (induction row arbitrary: T) auto
  also have "\<dots> = (\<Sum>j<length row. row ! j * k)"
    by (simp add: sum_list_sum_nth atLeast0LessThan)
  finally show ?thesis using assms by simp
qed

lemma nth_induced_stress_full:
  assumes "i < length A" "length (A ! i) = T"
  shows "induced_stress_full A T s n_max ! i = (\<Sum>j<T. A ! i ! j * (real_of_int n_max * s))"
  using assms
  by (simp add: induced_stress_full_def x_all_active_def nth_induced dot_replicate_sum)

text \<open>
  Claim C2. The precheck evaluates the induced stress with every tendon at \<open>n_max\<close>
  strands: at control point \<open>i\<close> it is the sum over the tendons \<open>j\<close> of
  \<open>A[i,j] * (n_max * s)\<close>. If it is strictly below the target at some control point,
  the pipeline stops with \<open>OptimizationAborted\<close> whatever the solver is: the solver is
  not consulted, no \<open>Solving\<close> message is printed, and the error is not the solver-status
  error. If no control point is violated, the pipeline goes on with the optimizer.
\<close>

theorem precheck_gate:
  assumes shape: "length A = length load"
  shows "((\<forall>row\<in>set A. length row = T) \<longrightarrow>
            (\<forall>i<length A. induced_stress_full A T s n_max ! i
                              = (\<Sum>j<T. A ! i ! j * (real_of_int n_max * s)))) \<and>
         ((\<exists>i<length load. induced_stress_full A T s n_max ! i < load ! i) \<longrightarrow>
            0 < n_violations (induced_stress_full A T s n_max) load \<and>
            (\<forall>solve. pipeline solve A T s load n_max =
               ([PrecheckHeader,
                 PrecheckNotMet (n_violations (induced_stress_full A T s n_max) load)],
                Inl OptimizationAborted)) \<and>
            (\<forall>solve. Solving \<notin> set (fst (pipeline solve A T s load n_max))) \<and>
            (\<forall>solve st. snd (pipeline solve A T s load n_max) \<noteq> Inl (OptimizationFailed st))) \<and>
         (\<not> (\<exists>i<length load. induced_stress_full A T s n_max ! i < load ! i) \<longrightarrow>
            (\<forall>solve. pipeline solve A T s load n_max =
               (PrecheckHeader # PrecheckSatisfied # fst (optimize solve A T s load n_max),
                snd (optimize solve A T s load n_max))) \<and>
            (\<forall>solve. Solving \<in> set (fst (pipeline solve A T s load n_max))))"
proof -
  have len: "length (induced_stress_full A T s n_max) = length load"
    using shape by (simp add: length_induced_stress_full)
  note iff = n_violations_pos_iff [OF len]
  show ?thesis
  proof (intro conjI impI allI)
    fix i
    assume rows: "\<forall>row\<in>set A. length row = T" and i: "i < length A"
    then have "length (A ! i) = T" using nth_mem by blast
    with i show "induced_stress_full A T s n_max ! i
                   = (\<Sum>j<T. A ! i ! j * (real_of_int n_max * s))"
      by (rule nth_induced_stress_full)
  next
    assume v: "\<exists>i<length load. induced_stress_full A T s n_max ! i < load ! i"
    then have nz: "n_violations (induced_stress_full A T s n_max) load \<noteq> 0"
      using iff by simp
    then show "0 < n_violations (induced_stress_full A T s n_max) load" by simp
    show "pipeline solve A T s load n_max =
               ([PrecheckHeader,
                 PrecheckNotMet (n_violations (induced_stress_full A T s n_max) load)],
                Inl OptimizationAborted)" for solve
      using pipeline_violated [OF nz] by simp
    show "Solving \<notin> set (fst (pipeline solve A T s load n_max))" for solve
      using pipeline_violated [OF nz] by simp
    show "snd (pipeline solve A T s load n_max) \<noteq> Inl (OptimizationFailed st)" for solve st
      using pipeline_violated [OF nz] by simp
  next
    assume "\<not> (\<exists>i<length load. induced_stress_full A T s n_max ! i < load ! i)"
    then have z: "n_violations (induced_stress_full A T s n_max) load = 0"
      using iff by blast
    show "pipeline solve A T s load n_max =
               (PrecheckHeader # PrecheckSatisfied # fst (optimize solve A T s load n_max),
                snd (optimize solve A T s load n_max))" for solve
      using pipeline_passed [OF z] by simp
    show "Solving \<in> set (fst (pipeline solve A T s load n_max))" for solve
      using pipeline_passed [OF z] Solving_in_optimize by simp
  qed
qed

lemma isf_1: "induced_stress_full [[1]] (Suc 0) 1 10 = [10]"
  by (simp add: induced_stress_full_def induced_def matvec_def dot_def x_all_active_def)

theorem precheck_gate_witness:
  "length [[1, 2], [3, 1 :: real]] = length [16, 5 :: real] \<and>
   list_all (\<lambda>row. length row = 2) [[1, 2], [3, 1 :: real]] \<and>
   induced_stress_full [[1, 2], [3, 1]] 2 (1 / 2) 10 ! 0 = 15 \<and>
   induced_stress_full [[1, 2], [3, 1]] 2 (1 / 2) 10 ! 1 = 20 \<and>
   (\<exists>i<length [16, 5 :: real].
      induced_stress_full [[1, 2], [3, 1]] 2 (1 / 2) 10 ! i < [16, 5] ! i) \<and>
   (\<forall>solve. pipeline solve [[1, 2], [3, 1]] 2 (1 / 2) [16, 5] 10 =
      ([PrecheckHeader, PrecheckNotMet 1], Inl OptimizationAborted)) \<and>
   length [[1, 2], [3, 1 :: real]] = length [15, 20 :: real] \<and>
   \<not> (\<exists>i<length [15, 20 :: real].
      induced_stress_full [[1, 2], [3, 1]] 2 (1 / 2) 10 ! i < [15, 20] ! i) \<and>
   (\<forall>solve. Solving \<in> set (fst (pipeline solve [[1, 2], [3, 1]] 2 (1 / 2) [15, 20] 10)))"
proof -
  let ?A = "[[1, 2], [3, 1 :: real]]"
  have a: "length ?A = length [16, 5 :: real]" by simp
  have c: "length ?A = length [15, 20 :: real]" by simp
  have rows: "\<forall>row\<in>set ?A. length row = 2" by simp
  note g1 = precheck_gate [OF a, of 2 "1 / 2" 10]
  note g2 = precheck_gate [OF c, of 2 "1 / 2" 10]
  have pin: "\<forall>i<length ?A. induced_stress_full ?A 2 (1 / 2) 10 ! i
               = (\<Sum>j<2. ?A ! i ! j * (real_of_int 10 * (1 / 2)))"
    using g1 [THEN conjunct1, THEN mp, OF rows] .
  have v0: "induced_stress_full ?A 2 (1 / 2) 10 ! 0 = 15"
    using pin [THEN spec [where x = 0]] by (simp add: numeral_2_eq_2)
  have v1: "induced_stress_full ?A 2 (1 / 2) 10 ! 1 = 20"
    using pin [THEN spec [where x = 1]] by (simp add: numeral_2_eq_2)
  have "length (induced_stress_full ?A 2 (1 / 2) 10) = Suc (Suc 0)"
    by (simp add: length_induced_stress_full)
  then obtain p q where "induced_stress_full ?A 2 (1 / 2) 10 = [p, q]"
    by (auto simp: length_Suc_conv)
  with v0 v1 have eq: "induced_stress_full ?A 2 (1 / 2) 10 = [15, 20]" by simp
  have b: "\<exists>i<length [16, 5 :: real]. induced_stress_full ?A 2 (1 / 2) 10 ! i < [16, 5] ! i"
    unfolding eq by (intro exI [of _ 0]) simp
  have d: "\<not> (\<exists>i<length [15, 20 :: real]. induced_stress_full ?A 2 (1 / 2) 10 ! i < [15, 20] ! i)"
    unfolding eq by simp
  have nv: "n_violations (induced_stress_full ?A 2 (1 / 2) 10) [16, 5] = 1"
    unfolding eq by (simp add: n_violations_def violations_def)
  have ab: "\<forall>solve. pipeline solve ?A 2 (1 / 2) [16, 5] 10 =
      ([PrecheckHeader, PrecheckNotMet 1], Inl OptimizationAborted)"
    using g1 [THEN conjunct2, THEN conjunct1, THEN mp, OF b, THEN conjunct2, THEN conjunct1]
    unfolding nv .
  have go: "\<forall>solve. Solving \<in> set (fst (pipeline solve ?A 2 (1 / 2) [15, 20] 10))"
    using g2 [THEN conjunct2, THEN conjunct2, THEN mp, OF d, THEN conjunct2] .
  have rows': "list_all (\<lambda>row. length row = 2) ?A" by simp
  show ?thesis
    apply (intro conjI)
    using a c rows' v0 v1 b ab d go by simp_all
qed

lemma negative_cap_infeasible:
  assumes "n_max < 0" "0 < T"
  shows "\<not> lp_feasible (formulate A T s load n_max) n"
proof
  assume f: "lp_feasible (formulate A T s load n_max) n"
  then have "length n = T" by (simp add: lp_feasible_def formulate_def)
  with assms(2) obtain x where x: "x \<in> set n" by (cases n) auto
  from f x have "0 \<le> x" "x \<le> real_of_int n_max"
    by (simp_all add: lp_feasible_def formulate_def list_all_iff)
  with assms(1) show False by linarith
qed

text \<open>
  Claim C3. If the precheck passes, the vector with every component equal to \<open>n_max\<close>
  satisfies the constraints of the program the optimizer formulates. \<open>n_max\<close> is a
  strand count, so it is taken non-negative: with a negative cap and at least one
  tendon the bounds \<open>0 \<le> n\<close> and \<open>n \<le> n_max\<close> exclude every vector
  (\<open>negative_cap_infeasible\<close>).
\<close>

theorem precheck_implies_lp_feasible:
  assumes pass: "n_violations (induced_stress_full A T s n_max) load = 0"
    and shape: "length A = length load"
    and cap: "0 \<le> n_max"
  shows "lp_feasible (formulate A T s load n_max)
           (x_all_active T n_max)"
proof -
  have len: "length (induced_stress_full A T s n_max) = length load"
    using shape by (simp add: length_induced_stress_full)
  have "list_all2 (\<lambda>i t. t \<le> i) (induced A (x_all_active T n_max) s) load"
    using pass n_violations_zero_iff [OF len] by (simp add: induced_stress_full_def)
  then show ?thesis
    using cap by (simp add: lp_feasible_def formulate_def x_all_active_def list_all_iff)
qed

theorem precheck_implies_lp_feasible_witness:
  "n_violations (induced_stress_full [[1]] 1 1 10) [5] = 0 \<and>
   length [[1::real]] = length [5::real] \<and> (0::int) \<le> 10 \<and>
   lp_feasible (formulate [[1]] 1 1 [5] 10)
     (x_all_active 1 10)"
proof -
  have a: "n_violations (induced_stress_full [[1]] 1 1 10) [5] = 0"
    by (simp add: isf_1 n_violations_def violations_def)
  have b: "length [[1::real]] = length [5::real]" by simp
  have c: "(0::int) \<le> 10" by simp
  from precheck_implies_lp_feasible [OF a b c] a b c show ?thesis by blast
qed

text \<open>
  Claim C4. If the solver's status is anything but \<open>''optimal''\<close>, the optimizer stops
  with \<open>OptimizationFailed\<close> carrying that status unchanged; the pipeline produces no
  output and prints no rounding or verification message.
\<close>

theorem solver_failure_is_fatal:
  assumes "solver_status (solve (formulate A T s load n_max))
             \<noteq> ''optimal''"
  shows "optimize solve A T s load n_max =
           ([Solving, Done],
            Inl (OptimizationFailed (solver_status
              (solve (formulate A T s load n_max))))) \<and>
         (n_violations (induced_stress_full A T s n_max) load = 0 \<longrightarrow>
            pipeline solve A T s load n_max =
              ([PrecheckHeader, PrecheckSatisfied, Solving, Done],
               Inl (OptimizationFailed (solver_status
                 (solve (formulate A T s load n_max)))))) \<and>
         (\<forall>out. snd (pipeline solve A T s load n_max) \<noteq> Inr out) \<and>
         (\<forall>k. RoundingWarning k \<notin> set (fst (pipeline solve A T s load n_max))) \<and>
         RoundingSatisfied \<notin> set (fst (pipeline solve A T s load n_max))"
proof -
  note f = optimize_not_optimal
    [where solve = solve and A = A and s = s and load = load and n_max = n_max and T = T, OF assms]
  show ?thesis
  proof (cases "n_violations (induced_stress_full A T s n_max) load = 0")
    case True
    show ?thesis using f pipeline_passed [OF True, of solve] by simp
  next
    case False
    show ?thesis using f pipeline_violated [OF False, of solve] False by simp
  qed
qed

theorem solver_failure_is_fatal_witness:
  "solver_status (infeasible_solver
      (formulate [[1]] 1 1 [5] 10)) \<noteq> ''optimal'' \<and>
   n_violations (induced_stress_full [[1]] 1 1 10) [5] = 0 \<and>
   pipeline infeasible_solver [[1]] 1 1 [5] 10 =
     ([PrecheckHeader, PrecheckSatisfied, Solving, Done],
      Inl (OptimizationFailed ''infeasible''))"
proof -
  have a: "solver_status (infeasible_solver
      (formulate [[1]] 1 1 [5] 10)) \<noteq> ''optimal''"
    by (simp add: infeasible_solver_def)
  have b: "n_violations (induced_stress_full [[1]] 1 1 10) [5] = 0"
    by (simp add: isf_1 n_violations_def violations_def)
  have c: "solver_status (infeasible_solver
      (formulate [[1]] 1 1 [5] 10)) = ''infeasible''"
    by (simp add: infeasible_solver_def)
  from solver_failure_is_fatal
    [where solve = infeasible_solver and A = "[[1]]" and s = 1 and load = "[5]" and n_max = 10
       and T = 1, OF a] a b c
  show ?thesis by simp
qed


lemma pipeline_output_iff:
  "(\<exists>out. snd (pipeline solve A T s load n_max) = Inr out) \<longleftrightarrow>
     n_violations (induced_stress_full A T s n_max) load = 0 \<and>
     solver_status (solve (formulate A T s load n_max)) = ''optimal''"
  by (simp add: pipeline_def optimize_def Let_def split_beta)

text \<open>
  Claim C9. If the precheck passes, the solver reports \<open>''optimal''\<close> and the verification
  after rounding counts violations, the pipeline prints \<open>RoundingWarning\<close> with the count
  and still returns the integer strand vector and the stress vectors. In general the
  pipeline returns outputs exactly when the precheck passes and the status is
  \<open>''optimal''\<close>: the two stops give none, violations after rounding do not stop it.
\<close>

theorem rounding_violation_is_warning:
  assumes pass: "n_violations (induced_stress_full A T s n_max) load = 0"
    and opt: "solver_status (solve (formulate A T s load n_max)) = ''optimal''"
    and viol: "0 < n_violations
                 (induced A (map real_of_int (round_up (n_value (solve (formulate A T s load n_max))))) s)
                 load"
  shows "pipeline solve A T s load n_max =
           ([PrecheckHeader, PrecheckSatisfied, Solving, Done,
             RoundingWarning (n_violations
               (induced A (map real_of_int (round_up (n_value (solve (formulate A T s load n_max))))) s)
               load)],
            Inr \<lparr> x_opt = round_up (n_value (solve (formulate A T s load n_max))),
                  induced_stress =
                    induced A (map real_of_int (round_up (n_value (solve (formulate A T s load n_max))))) s,
                  final_stress =
                    map2 (-) load
                      (induced A (map real_of_int (round_up (n_value (solve (formulate A T s load n_max))))) s) \<rparr>) \<and>
         (\<forall>solve' A' T' s' load' n_max'.
            (\<exists>out. snd (pipeline solve' A' T' s' load' n_max') = Inr out) \<longleftrightarrow>
              n_violations (induced_stress_full A' T' s' n_max') load' = 0 \<and>
              solver_status (solve' (formulate A' T' s' load' n_max')) = ''optimal'')"
proof -
  have "pipeline solve A T s load n_max =
          (PrecheckHeader # PrecheckSatisfied # fst (optimize solve A T s load n_max),
           snd (optimize solve A T s load n_max))"
    using pass by (rule pipeline_passed)
  moreover have "optimize solve A T s load n_max =
           ([Solving, Done,
             fst (round_and_verify A s load (n_value (solve (formulate A T s load n_max))))],
            Inr (snd (round_and_verify A s load (n_value (solve (formulate A T s load n_max))))))"
    using opt by (rule optimize_optimal)
  ultimately show ?thesis
    using viol pipeline_output_iff by (simp add: round_and_verify_def Let_def)
qed

theorem rounding_violation_is_warning_witness:
  "n_violations (induced_stress_full [[0, 1], [2, - 1]] 2 1 10) [1 / 5, 9 / 5] = 0 \<and>
   solver_status (vertex_solver (formulate [[0, 1], [2, - 1]] 2 1 [1 / 5, 9 / 5] 10)) = ''optimal'' \<and>
   pipeline vertex_solver [[0, 1], [2, - 1]] 2 1 [1 / 5, 9 / 5] 10 =
     ([PrecheckHeader, PrecheckSatisfied, Solving, Done, RoundingWarning 1],
      Inr \<lparr> x_opt = [1, 1], induced_stress = [1, 1], final_stress = [- 4 / 5, 4 / 5] \<rparr>)"
proof -
  have a: "n_violations (induced_stress_full [[0, 1], [2, - 1]] 2 1 10) [1 / 5, 9 / 5] = 0"
    by (simp add: induced_stress_full_def induced_def matvec_def dot_def x_all_active_def
        n_violations_def violations_def numeral_2_eq_2)
  have b: "solver_status (vertex_solver (formulate [[0, 1], [2, - 1]] 2 1 [1 / 5, 9 / 5] 10))
             = ''optimal''"
    by (simp add: vertex_solver_def)
  have r: "round_up (n_value (vertex_solver (formulate [[0, 1], [2, - 1]] 2 1 [1 / 5, 9 / 5] 10)))
             = [1, 1]"
    by (simp add: vertex_solver_def round_up_def ceiling_eq_iff)
  have i: "induced [[0, 1], [2, - 1]] [1, 1] 1 = [1, 1]"
    by (simp add: induced_def matvec_def dot_def)
  have n: "n_violations [1, 1] [1 / 5, 9 / 5 :: real] = 1"
    by (simp add: n_violations_def violations_def)
  have c: "0 < n_violations
             (induced [[0, 1], [2, - 1]]
                (map real_of_int (round_up (n_value
                   (vertex_solver (formulate [[0, 1], [2, - 1]] 2 1 [1 / 5, 9 / 5] 10))))) 1)
             [1 / 5, 9 / 5]"
    by (simp add: r i n)
  from rounding_violation_is_warning
    [where solve = vertex_solver and A = "[[0, 1], [2, - 1]]" and T = 2 and s = 1
       and load = "[1 / 5, 9 / 5]" and n_max = 10, OF a b c] a b
  show ?thesis by (simp add: r i n)
qed

section \<open>The literal scenario\<close>

lemma aspect_ratio_script: "aspect_ratio script = 8 / 12"
  by (simp add: aspect_ratio_def script_fields)

lemma tendons_script:
  "tendon_x_positions script = [1 / 2, 3 / 2, 5 / 2, 7 / 2, 9 / 2, 11 / 2, 13 / 2, 15 / 2]"
proof -
  have "\<lceil>7000001 / 1000000 :: real\<rceil> = 8" by (simp add: ceiling_eq_iff)
  then have "nat \<lceil>(8 - 1 / 2 + 1 / 1000000 - 1 / 2) / (1::real)\<rceil> = 8" by simp
  moreover have "[0..<8] = [0, 1, 2, 3, 4, 5, 6, 7 :: nat]" by (simp add: upt_rec)
  ultimately show ?thesis
    by (simp add: tendon_x_positions_def np_arange_def script_fields)
qed

lemma stress_script: "stress_per_tendon script = 1953 / 4000"
  by (simp add: stress_per_tendon_def Ptendon_def area_influence_def script_def)

lemma sigma_max_script: "sigma_max script = 81 / 8"
  by (simp add: sigma_max_def q_total_def q_dead_def Let_def script_def power3_eq_cube power2_eq_square)

lemma exp_am_gm: "2 * exp ((a + b) / 2) \<le> exp a + exp (b::real)"
proof -
  have a: "exp a = (exp (a / 2))\<^sup>2" using exp_double [of "a / 2"] by simp
  have b: "exp b = (exp (b / 2))\<^sup>2" using exp_double [of "b / 2"] by simp
  have "exp ((a + b) / 2) = exp (a / 2) * exp (b / 2)"
    by (simp add: exp_add [symmetric] add_divide_distrib)
  then show ?thesis
    using sum_squares_bound [of "exp (a / 2)" "exp (b / 2)"] by (simp add: a b)
qed

lemma exp_neg_four_ninths: "81 / 133 \<le> exp (- (4 / 9) :: real)"
proof -
  have "exp (4 / 9 :: real) \<le> 1 + 4 / 9 + (4 / 9)\<^sup>2" by (rule exp_bound) simp_all
  then have u: "exp (4 / 9 :: real) \<le> 133 / 81" by (simp add: power2_eq_square)
  have "81 / 133 = inverse (133 / 81 :: real)" by simp
  also have "\<dots> \<le> inverse (exp (4 / 9))" using u by (intro le_imp_inverse_le) simp_all
  also have "\<dots> = exp (- (4 / 9))" by (simp add: exp_minus)
  finally show ?thesis .
qed

lemma kernel_pair:
  fixes x t :: real
  assumes "t \<le> x" "x \<le> t + 1"
  shows "162 / 133 \<le> exp (- (\<bar>x - t\<bar>\<^sup>2) / (2 * (3 / 4)\<^sup>2))
                      + exp (- (\<bar>x - (t + 1)\<bar>\<^sup>2) / (2 * (3 / 4)\<^sup>2))"
proof -
  define d where "d = x - t"
  have d: "0 \<le> d" "d \<le> 1" using assms by (simp_all add: d_def)
  let ?a = "- (\<bar>x - t\<bar>\<^sup>2) / (2 * (3 / 4)\<^sup>2)"
  let ?b = "- (\<bar>x - (t + 1)\<bar>\<^sup>2) / (2 * (3 / 4)\<^sup>2)"
  have c: "2 * (3 / 4)\<^sup>2 = (9 / 8 :: real)" by (simp add: power2_eq_square)
  have a: "?a = - (8 / 9) * d\<^sup>2" unfolding d_def c by simp
  have xb: "x - (t + 1) = d - 1" by (simp add: d_def)
  have b: "?b = - (8 / 9) * (d - 1)\<^sup>2" unfolding xb c by simp
  have "d * (d - 1) \<le> 0" using d by (simp add: mult_nonneg_nonpos)
  then have "d\<^sup>2 + (d - 1)\<^sup>2 \<le> 1" by (simp add: power2_eq_square algebra_simps)
  then have "- (4 / 9) \<le> (?a + ?b) / 2" unfolding a b by simp
  then have "exp (- (4 / 9)) \<le> exp ((?a + ?b) / 2)" by simp
  with exp_neg_four_ninths have "81 / 133 \<le> exp ((?a + ?b) / 2)" by linarith
  with exp_am_gm [of ?a ?b] show ?thesis by linarith
qed


lemma kernel_sum:
  fixes x :: real
  assumes "1 / 2 \<le> x" "x \<le> 15 / 2"
  shows "162 / 133 \<le> sum_list (map (\<lambda>t. exp (- (\<bar>x - t\<bar>\<^sup>2) / (2 * (3 / 4)\<^sup>2)))
                          [1 / 2, 3 / 2, 5 / 2, 7 / 2, 9 / 2, 11 / 2, 13 / 2, 15 / 2])"
proof -
  define g where "g t = exp (- (\<bar>x - t\<bar>\<^sup>2) / (2 * (3 / 4)\<^sup>2))" for t :: real
  have nn: "0 \<le> g t" for t by (simp add: g_def)
  have pair: "162 / 133 \<le> g t + g (t + 1)" if "t \<le> x" "x \<le> t + 1" for t
    unfolding g_def using that by (rule kernel_pair)
  have s: "sum_list (map g [1 / 2, 3 / 2, 5 / 2, 7 / 2, 9 / 2, 11 / 2, 13 / 2, 15 / 2])
             = g (1 / 2) + g (3 / 2) + g (5 / 2) + g (7 / 2) + g (9 / 2) + g (11 / 2)
               + g (13 / 2) + g (15 / 2)"
    by simp
  note n = nn [of "1 / 2"] nn [of "3 / 2"] nn [of "5 / 2"] nn [of "7 / 2"] nn [of "9 / 2"]
    nn [of "11 / 2"] nn [of "13 / 2"] nn [of "15 / 2"]
  consider "x \<le> 3 / 2" | "3 / 2 \<le> x \<and> x \<le> 5 / 2" | "5 / 2 \<le> x \<and> x \<le> 7 / 2"
    | "7 / 2 \<le> x \<and> x \<le> 9 / 2" | "9 / 2 \<le> x \<and> x \<le> 11 / 2"
    | "11 / 2 \<le> x \<and> x \<le> 13 / 2" | "13 / 2 \<le> x"
    by linarith
  then have "162 / 133 \<le> g (1 / 2) + g (3 / 2) + g (5 / 2) + g (7 / 2) + g (9 / 2)
               + g (11 / 2) + g (13 / 2) + g (15 / 2)"
  proof cases
    case 1
    with assms pair [of "1 / 2"] have "162 / 133 \<le> g (1 / 2) + g (3 / 2)" by simp
    with n show ?thesis by linarith
  next
    case 2
    with pair [of "3 / 2"] have "162 / 133 \<le> g (3 / 2) + g (5 / 2)" by simp
    with n show ?thesis by linarith
  next
    case 3
    with pair [of "5 / 2"] have "162 / 133 \<le> g (5 / 2) + g (7 / 2)" by simp
    with n show ?thesis by linarith
  next
    case 4
    with pair [of "7 / 2"] have "162 / 133 \<le> g (7 / 2) + g (9 / 2)" by simp
    with n show ?thesis by linarith
  next
    case 5
    with pair [of "9 / 2"] have "162 / 133 \<le> g (9 / 2) + g (11 / 2)" by simp
    with n show ?thesis by linarith
  next
    case 6
    with pair [of "11 / 2"] have "162 / 133 \<le> g (11 / 2) + g (13 / 2)" by simp
    with n show ?thesis by linarith
  next
    case 7
    with assms pair [of "13 / 2"] have "162 / 133 \<le> g (13 / 2) + g (15 / 2)" by simp
    with n show ?thesis by linarith
  qed
  then have "162 / 133 \<le> sum_list (map g
      [1 / 2, 3 / 2, 5 / 2, 7 / 2, 9 / 2, 11 / 2, 13 / 2, 15 / 2])"
    by (simp only: s)
  moreover have "g = (\<lambda>t. exp (- (\<bar>x - t\<bar>\<^sup>2) / (2 * (3 / 4)\<^sup>2)))"
    by (rule ext) (simp add: g_def)
  ultimately show ?thesis by simp
qed

lemma dot_replicate:
  "dot (map f ts) (replicate (length ts) k) = k * sum_list (map f ts)"
  by (induction ts) (simp_all add: dot_def algebra_simps)

lemma influence_row_script:
  "influence_row script (x, y) =
     map (\<lambda>t. exp (- (\<bar>x - t\<bar>\<^sup>2) / (2 * (3 / 4)\<^sup>2)) * (1 + 3 * ((y / 12) * (1 - y / 12))))
       (tendon_x_positions script)"
  by (simp add: influence_row_def tendon_influence_with_eccentricity_def Let_def
      tendon_profile_def e_design_script script_fields)

lemma sigma_target_script: "sigma_target script (x, y) = (81 / 2) * ((y / 12) * (1 - y / 12))"
  by (simp add: sigma_target_def sigma_max_script script_fields Let_def power2_eq_square
      field_simps)

lemma point_ok:
  fixes x y c :: real
  assumes x: "1 / 2 \<le> x" "x \<le> 15 / 2" and y: "0 \<le> y" "y \<le> 12" and c: "99 / 10 \<le> c"
  shows "sigma_target script (x, y)
           \<le> dot (influence_row script (x, y))
                 (map (\<lambda>k. k * stress_per_tendon script)
                    (replicate (length (tendon_x_positions script)) c))"
proof -
  define w where "w = (y / 12) * (1 - y / 12)"
  define S where "S = sum_list (map (\<lambda>t. exp (- (\<bar>x - t\<bar>\<^sup>2) / (2 * (3 / 4)\<^sup>2)))
                          [1 / 2, 3 / 2, 5 / 2, 7 / 2, 9 / 2, 11 / 2, 13 / 2, 15 / 2])"
  have S: "162 / 133 \<le> S" unfolding S_def using x by (rule kernel_sum)
  have w0: "0 \<le> w" unfolding w_def using y by (intro mult_nonneg_nonneg) simp_all
  have "0 \<le> (y / 12 - 1 / 2)\<^sup>2" by simp
  then have w1: "w \<le> 1 / 4" unfolding w_def by (simp add: power2_eq_square algebra_simps)
  have row: "influence_row script (x, y) =
      map (\<lambda>t. exp (- (\<bar>x - t\<bar>\<^sup>2) / (2 * (3 / 4)\<^sup>2)) * (1 + 3 * w))
        (tendon_x_positions script)"
    unfolding w_def by (rule influence_row_script)
  have "dot (influence_row script (x, y))
          (map (\<lambda>k. k * stress_per_tendon script)
             (replicate (length (tendon_x_positions script)) c))
        = (c * (1953 / 4000)) *
            sum_list (map (\<lambda>t. exp (- (\<bar>x - t\<bar>\<^sup>2) / (2 * (3 / 4)\<^sup>2)) * (1 + 3 * w))
              (tendon_x_positions script))"
    unfolding row by (simp add: dot_replicate stress_script)
  also have "\<dots> = (c * (1953 / 4000)) * (S * (1 + 3 * w))"
    unfolding S_def tendons_script by (simp add: algebra_simps)
  finally have d: "dot (influence_row script (x, y))
          (map (\<lambda>k. k * stress_per_tendon script)
             (replicate (length (tendon_x_positions script)) c))
        = (c * (1953 / 4000)) * (S * (1 + 3 * w))" .
  define P where "P = c * S"
  have "(99 / 10) * (162 / 133) \<le> c * S"
    using c S by (intro mult_mono) simp_all
  then have k: "29 / 5 \<le> (1953 / 4000) * P" unfolding P_def by simp
  have "(29 / 5) * (1 + 3 * w) \<le> ((1953 / 4000) * P) * (1 + 3 * w)"
    using k w0 by (intro mult_right_mono) simp_all
  moreover have "(81 / 2) * w \<le> (29 / 5) * (1 + 3 * w)" using w0 w1 by simp
  ultimately have "(81 / 2) * w \<le> ((1953 / 4000) * P) * (1 + 3 * w)" by linarith
  also have "\<dots> = (c * (1953 / 4000)) * (S * (1 + 3 * w))" unfolding P_def by simp
  finally have "(81 / 2) * w \<le> (c * (1953 / 4000)) * (S * (1 + 3 * w))" .
  then show ?thesis unfolding d sigma_target_script w_def .
qed


lemma np_linspace_range:
  assumes "a \<le> b"
  shows "\<forall>v\<in>set (np_linspace a b N). a \<le> v \<and> v \<le> b"
proof (cases "N = 1")
  case True
  then show ?thesis using assms by (simp add: np_linspace_def)
next
  case False
  have "a \<le> a + real i * ((b - a) / real_of_int (N - 1)) \<and>
        a + real i * ((b - a) / real_of_int (N - 1)) \<le> b" if i: "i < nat N" for i
  proof -
    from i False have N: "2 \<le> N" by linarith
    define r where "r = real i / real_of_int (N - 1)"
    have "real i \<le> real_of_int (N - 1)" using i N by linarith
    then have r: "0 \<le> r" "r \<le> 1" using N by (simp_all add: r_def)
    have e: "real i * ((b - a) / real_of_int (N - 1)) = r * (b - a)" by (simp add: r_def)
    have "0 \<le> r * (b - a)" using r assms by simp
    moreover have "r * (b - a) \<le> 1 * (b - a)" using r assms by (intro mult_right_mono) simp_all
    ultimately show ?thesis unfolding e by simp
  qed
  then show ?thesis using False by (auto simp: np_linspace_def)
qed

lemma script_points_range:
  "\<forall>cp\<in>set script_points.
     1 / 2 \<le> fst cp \<and> fst cp \<le> 15 / 2 \<and> 1 / 2 \<le> snd cp \<and> snd cp \<le> 23 / 2"
proof
  fix cp assume "cp \<in> set script_points"
  then have "fst cp \<in> set (np_linspace (1 / 2) (15 / 2) 81)"
        and "snd cp \<in> set (np_linspace (1 / 2) (23 / 2) 123)"
    by (auto simp: script_points_def control_points_def x_control_def y_control_def script_fields)
  then show "1 / 2 \<le> fst cp \<and> fst cp \<le> 15 / 2 \<and> 1 / 2 \<le> snd cp \<and> snd cp \<le> 23 / 2"
    using np_linspace_range [of "1 / 2" "15 / 2" 81] np_linspace_range [of "1 / 2" "23 / 2" 123]
    by simp
qed

lemma induced_influence_matrix:
  "induced (influence_matrix p cps) x s =
     map (\<lambda>cp. dot (influence_row p cp) (map (\<lambda>k. k * s) x)) cps"
  by (simp add: induced_def matvec_def influence_matrix_def)

lemma uniform_meets_targets:
  assumes "99 / 10 \<le> c"
  shows "list_all2 (\<lambda>i t. t \<le> i)
           (induced (influence_matrix script script_points)
              (replicate (length (tendon_x_positions script)) c) (stress_per_tendon script))
           (load_vector script script_points)"
proof -
  have "sigma_target script cp
          \<le> dot (influence_row script cp)
                (map (\<lambda>k. k * stress_per_tendon script)
                   (replicate (length (tendon_x_positions script)) c))"
    if "cp \<in> set script_points" for cp
  proof -
    from that script_points_range
    have "1 / 2 \<le> fst cp" "fst cp \<le> 15 / 2" "0 \<le> snd cp" "snd cp \<le> 12" by fastforce+
    from point_ok [OF this assms] show ?thesis by simp
  qed
  then show ?thesis
    unfolding induced_influence_matrix load_vector_def
    by (simp add: list_all2_map1 list_all2_map2 list_all2_same)
qed

lemma script_precheck_passes:
  "n_violations
     (induced_stress_full (influence_matrix script script_points)
        (length (tendon_x_positions script)) (stress_per_tendon script) (n_cord_max script))
     (load_vector script script_points) = 0"
proof -
  have "list_all2 (\<lambda>i t. t \<le> i)
          (induced_stress_full (influence_matrix script script_points)
             (length (tendon_x_positions script)) (stress_per_tendon script) (n_cord_max script))
          (load_vector script script_points)"
    unfolding induced_stress_full_def x_all_active_def script_fields
    by (rule uniform_meets_targets) simp
  then show ?thesis
    by (simp add: n_violations_zero_iff length_induced_stress_full influence_matrix_def
        load_vector_def)
qed

lemma script_lp_uniform_feasible:
  "lp_feasible script_lp (replicate (length (tendon_x_positions script)) (99 / 10))"
  using uniform_meets_targets [of "99 / 10"]
  by (simp add: lp_feasible_def script_lp_def formulate_def list_all_iff script_fields)

lemma lp_objective_nonneg:
  assumes "lp_feasible lp n"
  shows "0 \<le> lp_objective n"
  using assms by (auto simp: lp_feasible_def lp_objective_def list_all_iff intro: sum_list_nonneg)

lemma lp_value_lower:
  assumes "lp_feasible lp n"
  shows "lp_value lp \<le> lp_objective n"
  unfolding lp_value_def
proof (rule cInf_lower)
  show "lp_objective n \<in> {lp_objective n | n. lp_feasible lp n}" using assms by blast
  show "bdd_below {lp_objective n | n. lp_feasible lp n}"
    by (rule bdd_belowI [of _ 0]) (auto intro: lp_objective_nonneg)
qed

lemma lp_value_nonneg:
  assumes "lp_feasible lp n"
  shows "0 \<le> lp_value lp"
  unfolding lp_value_def
proof (rule cInf_greatest)
  show "{lp_objective n | n. lp_feasible lp n} \<noteq> {}" using assms by blast
  show "\<And>x. x \<in> {lp_objective n | n. lp_feasible lp n} \<Longrightarrow> 0 \<le> x"
    by (auto intro: lp_objective_nonneg)
qed

lemma grid_of_script: "grid 10000 (aspect_ratio script) = Inr (81, 123)"
  unfolding aspect_ratio_script by (rule grid_script)

lemma run_script:
  "run solve script =
     pipeline solve (influence_matrix script script_points) (length (tendon_x_positions script))
       (stress_per_tendon script) (load_vector script script_points) (n_cord_max script)"
  by (simp add: run_def script_fields grid_of_script script_points_def Let_def)

lemma script_lp_optimum_below_full:
  assumes "lp_feasible script_lp n"
    and "\<forall>m. lp_feasible script_lp m \<longrightarrow> lp_objective n \<le> lp_objective m"
  shows "lp_objective n = lp_value script_lp \<and> lp_objective n < 80"
proof -
  have "lp_value script_lp \<le> lp_objective n" using assms(1) by (rule lp_value_lower)
  moreover have "lp_objective n \<le> lp_value script_lp"
    unfolding lp_value_def
  proof (rule cInf_greatest)
    show "{lp_objective n | n. lp_feasible script_lp n} \<noteq> {}" using assms(1) by blast
    show "\<And>x. x \<in> {lp_objective n | n. lp_feasible script_lp n} \<Longrightarrow> lp_objective n \<le> x"
      using assms(2) by blast
  qed
  moreover have "lp_objective n
      \<le> lp_objective (replicate (length (tendon_x_positions script)) (99 / 10))"
    using assms(2) script_lp_uniform_feasible by blast
  moreover have "lp_objective (replicate (length (tendon_x_positions script)) (99 / 10)) = 792 / 10"
    by (simp add: lp_objective_def tendons_script sum_list_replicate)
  ultimately show ?thesis by linarith
qed

text \<open>
  Claim C8. With the constants of the file (width 8, height 12, thickness 0.40, spacing
  1.0, \<open>Npc = 10000\<close>, \<open>n_cord_max = 10\<close>) the grid generator gives \<open>Ny = 123\<close> (122 forced
  odd) and \<open>Nx = 81\<close>; the tendons stand at 0.5, 1.5, ..., 7.5; the precheck counts no
  violation, so every run reaches the optimizer; and the optimal objective of the
  program, its infimum over the feasible region, is at least 0 and strictly below
  \<open>tendon_count * n_cord_max = 80\<close>. Any feasible minimiser a solver returns has that
  objective (\<open>script_lp_optimum_below_full\<close>).
\<close>

theorem literal_scenario:
  "grid (Npc script) (aspect_ratio script) = Inr (81, 123) \<and>
   tendon_x_positions script = [1 / 2, 3 / 2, 5 / 2, 7 / 2, 9 / 2, 11 / 2, 13 / 2, 15 / 2] \<and>
   n_violations
     (induced_stress_full (influence_matrix script script_points)
        (length (tendon_x_positions script)) (stress_per_tendon script) (n_cord_max script))
     (load_vector script script_points) = 0 \<and>
   (\<forall>solve. \<exists>msgs res.
      run solve script = (PrecheckHeader # PrecheckSatisfied # Solving # msgs, res)) \<and>
   0 \<le> lp_value script_lp \<and>
   lp_value script_lp
     < real (length (tendon_x_positions script)) * real_of_int (n_cord_max script)"
proof (intro conjI allI)
  show "grid (Npc script) (aspect_ratio script) = Inr (81, 123)"
    by (simp add: script_fields grid_of_script)
  show "tendon_x_positions script = [1 / 2, 3 / 2, 5 / 2, 7 / 2, 9 / 2, 11 / 2, 13 / 2, 15 / 2]"
    by (rule tendons_script)
  show "n_violations
     (induced_stress_full (influence_matrix script script_points)
        (length (tendon_x_positions script)) (stress_per_tendon script) (n_cord_max script))
     (load_vector script script_points) = 0"
    by (rule script_precheck_passes)
  show "\<exists>msgs res. run solve script = (PrecheckHeader # PrecheckSatisfied # Solving # msgs, res)"
    for solve
    unfolding run_script pipeline_passed [OF script_precheck_passes]
    by (simp add: optimize_def Let_def split_beta)
  show "0 \<le> lp_value script_lp"
    using script_lp_uniform_feasible by (rule lp_value_nonneg)
  have "lp_value script_lp
          \<le> lp_objective (replicate (length (tendon_x_positions script)) (99 / 10))"
    using script_lp_uniform_feasible by (rule lp_value_lower)
  also have "\<dots> = 792 / 10"
    by (simp add: lp_objective_def tendons_script sum_list_replicate)
  finally show "lp_value script_lp
     < real (length (tendon_x_positions script)) * real_of_int (n_cord_max script)"
    by (simp add: tendons_script script_fields)
qed

end
